theory Spec2Isabelle
  imports Main "HOL-Library.Sublist"
begin

unbundle bit_operations_syntax

section \<open>CTAEB: compile-time algebraic expressions\<close>

text \<open>
  A shallow embedding of the expression classes of \<^verbatim>\<open>include/ctaeb/expression.h\<close>,
  the operator overloads of \<^verbatim>\<open>include/ctaeb/operations.h\<close> and the printer of
  \<^verbatim>\<open>include/ctaeb/print.h\<close>.

  The library is a set of C++ templates: an expression is generic in the types of the
  values it is called with, and every failure of a call to fit the expression (too few
  arguments, operand types an operation does not accept) is a failure to compile that
  call. The embedding fixes a universe of call-time values (\<^verbatim>\<open>int\<close>, \<^verbatim>\<open>bool\<close> and
  \<^verbatim>\<open>std::string\<close>) and keeps the two phases apart: \<open>result_type\<close> is the instantiation
  of \<^verbatim>\<open>operator()\<close> for the types of the arguments (no result means that the call does
  not build), \<open>run\<close> is the execution of a call that was built.

  An expression can hold a reference to a variable of its caller (a \<^verbatim>\<open>Constant<T&>\<close>), so
  the execution reads a store of the caller's variables.
\<close>

subsection \<open>Values and their types\<close>

datatype ty = TInt | TBool | TStr

datatype val = VInt int | VBool bool | VStr string

fun type_of :: "val \<Rightarrow> ty" where
  "type_of (VInt i) = TInt"
| "type_of (VBool b) = TBool"
| "type_of (VStr s) = TStr"

text \<open>
  \<open>BuildFailure\<close>: the call does not compile (or link). \<open>UndefinedBehaviour\<close>: the call
  was built and its execution overflows an \<^verbatim>\<open>int\<close> or divides by zero.
\<close>

datatype error = BuildFailure | UndefinedBehaviour

subsection \<open>Operations\<close>

text \<open>
  An operation is a class template \<^verbatim>\<open>Op\<close>; a compound holds an \<^verbatim>\<open>Op<void>\<close>. A template
  of the caller's own is described by what the library reads of it: the \<^verbatim>\<open>to_string<Op>\<close>
  specialisation (if the program has one), the static member \<^verbatim>\<open>prefixed\<close> (if the class
  declares one), for which argument types \<^verbatim>\<open>Op<void>::operator()\<close> compiles and with
  which result type, and what the call returns.
\<close>

record custom_op =
  cop_symbol :: "string option"
  cop_prefixed :: "bool option"
  cop_type :: "ty list \<Rightarrow> ty option"
  cop_call :: "val list \<Rightarrow> error + val"

datatype op =
    Std_plus | Std_minus | Std_multiplies | Std_divides | Std_negate
  | Std_equal_to | Std_not_equal_to
  | Std_less | Std_less_equal | Std_greater | Std_greater_equal
  | Std_logical_and | Std_logical_or | Std_logical_not
  | Std_unary_negate | Std_bit_xor
  | Custom custom_op

text \<open>The usual arithmetic conversions: \<^verbatim>\<open>bool\<close> is promoted to \<^verbatim>\<open>int\<close>.\<close>

fun arithmetic :: "ty \<Rightarrow> bool" where
  "arithmetic TInt = True"
| "arithmetic TBool = True"
| "arithmetic TStr = False"

fun as_int :: "val \<Rightarrow> int option" where
  "as_int (VInt i) = Some i"
| "as_int (VBool b) = Some (if b then 1 else 0)"
| "as_int (VStr s) = None"

text \<open>Contextual conversion to \<^verbatim>\<open>bool\<close>, as in \<^verbatim>\<open>if (res1)\<close> and \<^verbatim>\<open>!res1\<close>.\<close>

fun truthy :: "val \<Rightarrow> bool option" where
  "truthy (VInt i) = Some (i \<noteq> 0)"
| "truthy (VBool b) = Some b"
| "truthy (VStr s) = None"

definition int_min :: int where
  "int_min = - (2 ^ 31)"

definition int_max :: int where
  "int_max = 2 ^ 31 - 1"

definition checked :: "int \<Rightarrow> error + val" where
  "checked i = (if int_min \<le> i \<and> i \<le> int_max then Inr (VInt i) else Inl UndefinedBehaviour)"

text \<open>Division of \<^verbatim>\<open>int\<close> truncates towards zero.\<close>

definition cpp_div :: "int \<Rightarrow> int \<Rightarrow> error + val" where
  "cpp_div a b =
     (if b = 0 then Inl UndefinedBehaviour
      else checked (sgn a * sgn b * (\<bar>a\<bar> div \<bar>b\<bar>)))"

text \<open>\<^verbatim>\<open>std::string\<close> compares lexicographically, character by character as unsigned bytes.\<close>

fun str_less :: "string \<Rightarrow> string \<Rightarrow> bool" where
  "str_less [] [] = False"
| "str_less [] (y # ys) = True"
| "str_less (x # xs) [] = False"
| "str_less (x # xs) (y # ys) =
     (if (of_char x :: nat) < of_char y then True
      else if (of_char y :: nat) < of_char x then False
      else str_less xs ys)"

definition unary_ty :: "(ty \<Rightarrow> ty option) \<Rightarrow> ty list \<Rightarrow> ty option" where
  "unary_ty f ts = (case ts of [a] \<Rightarrow> f a | _ \<Rightarrow> None)"

definition binary_ty :: "(ty \<Rightarrow> ty \<Rightarrow> ty option) \<Rightarrow> ty list \<Rightarrow> ty option" where
  "binary_ty f ts = (case ts of [a, b] \<Rightarrow> f a b | _ \<Rightarrow> None)"

definition arith_ty :: "ty \<Rightarrow> ty \<Rightarrow> ty option" where
  "arith_ty a b = (if arithmetic a \<and> arithmetic b then Some TInt else None)"

definition compare_ty :: "ty \<Rightarrow> ty \<Rightarrow> ty option" where
  "compare_ty a b =
     (if arithmetic a \<and> arithmetic b then Some TBool
      else if a = TStr \<and> b = TStr then Some TBool
      else None)"

text \<open>
  For which operand types a call of \<^verbatim>\<open>Op<void>\<close> compiles, and the type of its result.
  \<^verbatim>\<open>std::unary_negate<void>\<close> is not a valid type, so no call of it compiles.
\<close>

fun op_type :: "op \<Rightarrow> ty list \<Rightarrow> ty option" where
  "op_type Std_plus ts =
     binary_ty (\<lambda>a b. if a = TStr \<and> b = TStr then Some TStr else arith_ty a b) ts"
| "op_type Std_minus ts = binary_ty arith_ty ts"
| "op_type Std_multiplies ts = binary_ty arith_ty ts"
| "op_type Std_divides ts = binary_ty arith_ty ts"
| "op_type Std_negate ts = unary_ty (\<lambda>a. if arithmetic a then Some TInt else None) ts"
| "op_type Std_equal_to ts = binary_ty compare_ty ts"
| "op_type Std_not_equal_to ts = binary_ty compare_ty ts"
| "op_type Std_less ts = binary_ty compare_ty ts"
| "op_type Std_less_equal ts = binary_ty compare_ty ts"
| "op_type Std_greater ts = binary_ty compare_ty ts"
| "op_type Std_greater_equal ts = binary_ty compare_ty ts"
| "op_type Std_logical_and ts =
     binary_ty (\<lambda>a b. if arithmetic a \<and> arithmetic b then Some TBool else None) ts"
| "op_type Std_logical_or ts =
     binary_ty (\<lambda>a b. if arithmetic a \<and> arithmetic b then Some TBool else None) ts"
| "op_type Std_logical_not ts = unary_ty (\<lambda>a. if arithmetic a then Some TBool else None) ts"
| "op_type Std_unary_negate ts = None"
| "op_type Std_bit_xor ts = binary_ty arith_ty ts"
| "op_type (Custom c) ts = cop_type c ts"

definition unary_val :: "(val \<Rightarrow> error + val) \<Rightarrow> val list \<Rightarrow> error + val" where
  "unary_val f vs = (case vs of [a] \<Rightarrow> f a | _ \<Rightarrow> Inl BuildFailure)"

definition binary_val :: "(val \<Rightarrow> val \<Rightarrow> error + val) \<Rightarrow> val list \<Rightarrow> error + val" where
  "binary_val f vs = (case vs of [a, b] \<Rightarrow> f a b | _ \<Rightarrow> Inl BuildFailure)"

definition arith_val :: "(int \<Rightarrow> int \<Rightarrow> error + val) \<Rightarrow> val \<Rightarrow> val \<Rightarrow> error + val" where
  "arith_val f a b =
     (case (as_int a, as_int b) of
        (Some i, Some j) \<Rightarrow> f i j
      | _ \<Rightarrow> Inl BuildFailure)"

definition compare_val ::
  "(int \<Rightarrow> int \<Rightarrow> bool) \<Rightarrow> (string \<Rightarrow> string \<Rightarrow> bool) \<Rightarrow> val \<Rightarrow> val \<Rightarrow> error + val" where
  "compare_val f g a b =
     (case (a, b) of
        (VStr s, VStr t) \<Rightarrow> Inr (VBool (g s t))
      | _ \<Rightarrow> arith_val (\<lambda>i j. Inr (VBool (f i j))) a b)"

definition logical_val :: "(bool \<Rightarrow> bool \<Rightarrow> bool) \<Rightarrow> val \<Rightarrow> val \<Rightarrow> error + val" where
  "logical_val f a b =
     (case (truthy a, truthy b) of
        (Some x, Some y) \<Rightarrow> Inr (VBool (f x y))
      | _ \<Rightarrow> Inl BuildFailure)"

text \<open>What a call of \<^verbatim>\<open>Op<void>\<close> returns on the results of the nested expressions.\<close>

fun apply_op :: "op \<Rightarrow> val list \<Rightarrow> error + val" where
  "apply_op Std_plus vs =
     binary_val (\<lambda>a b. case (a, b) of
         (VStr s, VStr t) \<Rightarrow> Inr (VStr (s @ t))
       | _ \<Rightarrow> arith_val (\<lambda>i j. checked (i + j)) a b) vs"
| "apply_op Std_minus vs = binary_val (arith_val (\<lambda>i j. checked (i - j))) vs"
| "apply_op Std_multiplies vs = binary_val (arith_val (\<lambda>i j. checked (i * j))) vs"
| "apply_op Std_divides vs = binary_val (arith_val cpp_div) vs"
| "apply_op Std_negate vs =
     unary_val (\<lambda>a. case as_int a of Some i \<Rightarrow> checked (- i) | None \<Rightarrow> Inl BuildFailure) vs"
| "apply_op Std_equal_to vs = binary_val (compare_val (\<lambda>i j. i = j) (\<lambda>s t. s = t)) vs"
| "apply_op Std_not_equal_to vs = binary_val (compare_val (\<lambda>i j. i \<noteq> j) (\<lambda>s t. s \<noteq> t)) vs"
| "apply_op Std_less vs = binary_val (compare_val (\<lambda>i j. i < j) str_less) vs"
| "apply_op Std_less_equal vs =
     binary_val (compare_val (\<lambda>i j. i \<le> j) (\<lambda>s t. \<not> str_less t s)) vs"
| "apply_op Std_greater vs = binary_val (compare_val (\<lambda>i j. i > j) (\<lambda>s t. str_less t s)) vs"
| "apply_op Std_greater_equal vs =
     binary_val (compare_val (\<lambda>i j. i \<ge> j) (\<lambda>s t. \<not> str_less s t)) vs"
| "apply_op Std_logical_and vs = binary_val (logical_val (\<lambda>x y. x \<and> y)) vs"
| "apply_op Std_logical_or vs = binary_val (logical_val (\<lambda>x y. x \<or> y)) vs"
| "apply_op Std_logical_not vs =
     unary_val (\<lambda>a. case truthy a of Some x \<Rightarrow> Inr (VBool (\<not> x)) | None \<Rightarrow> Inl BuildFailure) vs"
| "apply_op Std_unary_negate vs = Inl BuildFailure"
| "apply_op Std_bit_xor vs = binary_val (arith_val (\<lambda>i j. checked (i XOR j))) vs"
| "apply_op (Custom c) vs = cop_call c vs"

text \<open>
  \<^verbatim>\<open>detail::Invoker<Op>\<close> has a primary template and two explicit specialisations, for
  \<^verbatim>\<open>std::logical_and\<close> and \<^verbatim>\<open>std::logical_or\<close>.
\<close>

datatype invoker = Common | Lazy_and | Lazy_or

fun invoker_of :: "op \<Rightarrow> invoker" where
  "invoker_of Std_logical_and = Lazy_and"
| "invoker_of Std_logical_or = Lazy_or"
| "invoker_of _ = Common"

subsection \<open>Expressions\<close>

text \<open>
  The variables of the caller: a store maps the address of each live variable to its
  value.
\<close>

type_synonym addr = nat

type_synonym store = "addr \<Rightarrow> val option"

text \<open>
  The member \<^verbatim>\<open>const T value_\<close> of \<^verbatim>\<open>Constant<T>\<close>. For an object type \<^verbatim>\<open>T\<close> it is a copy
  of the constructor's argument. For a reference type \<^verbatim>\<open>T = U&\<close> the \<^verbatim>\<open>const\<close> is void and
  \<^verbatim>\<open>value_\<close> is a \<^verbatim>\<open>U&\<close> bound to the constructor's argument: \<open>Ref u a\<close> refers to the
  caller's variable at address \<open>a\<close>, of type \<open>u\<close>.
\<close>

datatype held = Held val | Ref ty addr

fun held_type :: "held \<Rightarrow> ty" where
  "held_type (Held v) = type_of v"
| "held_type (Ref u a) = u"

text \<open>
  Reading \<^verbatim>\<open>value_\<close>. A reference reads the variable as it is now; if the variable is
  gone (or does not hold a value of its type, which C++ excludes), there is nothing to
  read.
\<close>

fun stored :: "store \<Rightarrow> held \<Rightarrow> val option" where
  "stored st (Held v) = Some v"
| "stored st (Ref u a) =
     (case st a of
        None \<Rightarrow> None
      | Some v \<Rightarrow> if type_of v = u then Some v else None)"

text \<open>
  \<^verbatim>\<open>Constant<T>\<close> holds \<^verbatim>\<open>value_\<close>; \<^verbatim>\<open>Variable<N>\<close> holds its index \<open>N\<close> (a \<^verbatim>\<open>size_t\<close>) and
  \<^verbatim>\<open>name_\<close>; \<^verbatim>\<open>Compound<Op, Nested...>\<close> holds the tuple \<^verbatim>\<open>expressions_\<close>. A nested
  expression that the tuple holds by reference (\<^verbatim>\<open>Nested = Variable<1>&\<close>) is given as the
  expression referred to: a call reads nothing of an expression object but the nested
  expressions and \<^verbatim>\<open>value_\<close>.
\<close>

datatype expr =
    Constant held
  | Variable nat string
  | Compound op "expr list"

subsection \<open>Instantiation: which calls build\<close>

text \<open>
  \<open>result_type e ts\<close> is the return type that \<^verbatim>\<open>decltype(auto)\<close> deduces for a call of the
  expression with arguments of the types \<open>ts\<close>, or \<open>None\<close> when the call does not compile.
  \<^item> \<^verbatim>\<open>Constant::operator()\<close> accepts any arguments.
  \<^item> \<^verbatim>\<open>Variable::operator()\<close> is \<^verbatim>\<open>std::get<N - 1>\<close> of the tuple of the arguments: it
    compiles when \<open>N - 1\<close> (computed in \<^verbatim>\<open>size_t\<close>) is below the number of arguments.
  \<^item> The primary \<^verbatim>\<open>Invoker\<close> instantiates every nested call and the call of the operation
    on their results.
  \<^item> The two specialisations have a call operator for a tuple of two only; both nested
    calls are instantiated, the first result is converted to \<^verbatim>\<open>bool\<close>, and the two
    \<^verbatim>\<open>return\<close> statements (a \<^verbatim>\<open>bool\<close> literal, and the call of the operation) must deduce
    the same type.
\<close>

fun result_type :: "expr \<Rightarrow> ty list \<Rightarrow> ty option"
  and result_types :: "expr list \<Rightarrow> ty list \<Rightarrow> ty list option" where
  "result_type (Constant h) ts = Some (held_type h)"
| "result_type (Variable n name) ts =
     (if 1 \<le> n \<and> n \<le> length ts then Some (ts ! (n - 1)) else None)"
| "result_type (Compound opr es) ts =
     (case result_types es ts of
        None \<Rightarrow> None
      | Some rs \<Rightarrow>
          (case invoker_of opr of
             Common \<Rightarrow> op_type opr rs
           | Lazy_and \<Rightarrow>
               (case rs of
                  [t1, t2] \<Rightarrow>
                    if arithmetic t1 \<and> op_type Std_logical_and [t1, t2] = Some TBool
                    then Some TBool else None
                | _ \<Rightarrow> None)
           | Lazy_or \<Rightarrow>
               (case rs of
                  [t1, t2] \<Rightarrow>
                    if arithmetic t1 \<and> op_type Std_logical_or [t1, t2] = Some TBool
                    then Some TBool else None
                | _ \<Rightarrow> None)))"
| "result_types [] ts = Some []"
| "result_types (e # es) ts =
     (case result_type e ts of
        None \<Rightarrow> None
      | Some t \<Rightarrow>
          (case result_types es ts of
             None \<Rightarrow> None
           | Some rs \<Rightarrow> Some (t # rs)))"

subsection \<open>Execution\<close>

text \<open>
  The library's own code has no side effect, so the order in which the nested expressions
  of a compound are called is not visible in the value. To state what is called and in
  which order, the execution records a trace: \<open>Enter p\<close> when \<^verbatim>\<open>operator()\<close> of the node
  at position \<open>p\<close> is entered (\<open>p\<close> is the path of tuple indices from the root), and
  \<open>Apply p\<close> when that node calls its operation.
\<close>

type_synonym path = "nat list"

datatype event = Enter path | Apply path

fun path_of :: "event \<Rightarrow> path" where
  "path_of (Enter p) = p"
| "path_of (Apply p) = p"

type_synonym outcome = "error + (event list \<times> val)"

text \<open>
  The primary \<^verbatim>\<open>Invoker\<close> calls the nested expressions as the arguments of one function
  call, \<^verbatim>\<open>op(std::get<I>(tuple)(args...)...)\<close>. C++17 evaluates the arguments of a call
  one after another, in an order that the implementation chooses. A schedule is that
  choice: for the node at path \<open>p\<close> with \<open>k\<close> nested expressions, \<open>s p k\<close> lists the tuple
  indices in the order in which they are called.
\<close>

type_synonym schedule = "path \<Rightarrow> nat \<Rightarrow> nat list"

definition left_to_right :: schedule where
  "left_to_right p k = [0..<k]"

definition right_to_left :: schedule where
  "right_to_left p k = rev [0..<k]"

definition valid_schedule :: "schedule \<Rightarrow> bool" where
  "valid_schedule s = (\<forall>p k. distinct (s p k) \<and> set (s p k) = {0..<k})"

text \<open>
  The traces of the nested calls, one after another in the order of the schedule (an
  index outside the tuple stands for no call; a valid schedule has none).
\<close>

definition arrange :: "nat list \<Rightarrow> 'a list list \<Rightarrow> 'a list" where
  "arrange order ts = concat (map (\<lambda>i. ts ! i) (filter (\<lambda>i. i < length ts) order))"

text \<open>
  \<open>run s st p e args\<close> executes \<^verbatim>\<open>e(args...)\<close> for the node \<open>e\<close> at path \<open>p\<close>, with the
  caller's variables as in the store \<open>st\<close>, which no call writes; \<open>run_list\<close> is
  the pack expansion over \<^verbatim>\<open>std::index_sequence<I...>\<close>, giving the outcome of each nested
  call by tuple index. The operation always receives the results in tuple order; the
  schedule decides the order of the calls, that is, of their traces.
\<close>

fun run :: "schedule \<Rightarrow> store \<Rightarrow> path \<Rightarrow> expr \<Rightarrow> val list \<Rightarrow> outcome"
  and run_list ::
    "schedule \<Rightarrow> store \<Rightarrow> path \<Rightarrow> nat \<Rightarrow> expr list \<Rightarrow> val list \<Rightarrow>
       error + (event list \<times> val) list" where
  "run s st p (Constant h) args =
     (case stored st h of
        None \<Rightarrow> Inl UndefinedBehaviour
      | Some v \<Rightarrow> Inr ([Enter p], v))"
| "run s st p (Variable n name) args =
     (if 1 \<le> n \<and> n \<le> length args then Inr ([Enter p], args ! (n - 1))
      else Inl BuildFailure)"
| "run s st p (Compound opr es) args =
     (case invoker_of opr of
        Common \<Rightarrow>
          (case run_list s st p 0 es args of
             Inl err \<Rightarrow> Inl err
           | Inr outs \<Rightarrow>
               (case apply_op opr (map snd outs) of
                  Inl err \<Rightarrow> Inl err
                | Inr v \<Rightarrow>
                    Inr (Enter p # arrange (s p (length es)) (map fst outs) @ [Apply p], v)))
      | Lazy_and \<Rightarrow>
          (case es of
             [e1, e2] \<Rightarrow>
               (case run s st (p @ [0]) e1 args of
                  Inl err \<Rightarrow> Inl err
                | Inr (t1, res1) \<Rightarrow>
                    (case truthy res1 of
                       None \<Rightarrow> Inl BuildFailure
                     | Some False \<Rightarrow> Inr (Enter p # t1, VBool False)
                     | Some True \<Rightarrow>
                         (case run s st (p @ [1]) e2 args of
                            Inl err \<Rightarrow> Inl err
                          | Inr (t2, res2) \<Rightarrow>
                              (case apply_op Std_logical_and [res1, res2] of
                                 Inl err \<Rightarrow> Inl err
                               | Inr v \<Rightarrow> Inr (Enter p # t1 @ t2 @ [Apply p], v)))))
           | _ \<Rightarrow> Inl BuildFailure)
      | Lazy_or \<Rightarrow>
          (case es of
             [e1, e2] \<Rightarrow>
               (case run s st (p @ [0]) e1 args of
                  Inl err \<Rightarrow> Inl err
                | Inr (t1, res1) \<Rightarrow>
                    (case truthy res1 of
                       None \<Rightarrow> Inl BuildFailure
                     | Some True \<Rightarrow> Inr (Enter p # t1, VBool True)
                     | Some False \<Rightarrow>
                         (case run s st (p @ [1]) e2 args of
                            Inl err \<Rightarrow> Inl err
                          | Inr (t2, res2) \<Rightarrow>
                              (case apply_op Std_logical_or [res1, res2] of
                                 Inl err \<Rightarrow> Inl err
                               | Inr v \<Rightarrow> Inr (Enter p # t1 @ t2 @ [Apply p], v)))))
           | _ \<Rightarrow> Inl BuildFailure))"
| "run_list s st p i [] args = Inr []"
| "run_list s st p i (e # es) args =
     (case run s st (p @ [i]) e args of
        Inl err \<Rightarrow> Inl err
      | Inr out \<Rightarrow>
          (case run_list s st p (Suc i) es args of
             Inl err \<Rightarrow> Inl err
           | Inr outs \<Rightarrow> Inr (out # outs)))"

text \<open>
  \<^verbatim>\<open>Compound::operator()\<close>, \<^verbatim>\<open>Variable::operator()\<close> and \<^verbatim>\<open>Constant::operator()\<close> as the
  caller sees them: the call is instantiated for the types of the arguments, and executed
  if that succeeds.
\<close>

definition evaluate :: "schedule \<Rightarrow> store \<Rightarrow> path \<Rightarrow> expr \<Rightarrow> val list \<Rightarrow> outcome" where
  "evaluate s st p e args =
     (case result_type e (map type_of args) of
        None \<Rightarrow> Inl BuildFailure
      | Some t \<Rightarrow> run s st p e args)"

text \<open>The call \<^verbatim>\<open>e(args...)\<close> compiles.\<close>

definition builds :: "expr \<Rightarrow> val list \<Rightarrow> bool" where
  "builds e args = (result_type e (map type_of args) \<noteq> None)"

definition value_of :: "outcome \<Rightarrow> error + val" where
  "value_of r = (case r of Inl err \<Rightarrow> Inl err | Inr (t, v) \<Rightarrow> Inr v)"

text \<open>The variables of the caller that an expression refers to.\<close>

fun refs :: "expr \<Rightarrow> addr set" where
  "refs (Constant (Held v)) = {}"
| "refs (Constant (Ref u a)) = {a}"
| "refs (Variable n name) = {}"
| "refs (Compound opr es) = (\<Union>e\<in>set es. refs e)"

subsection \<open>Building expressions\<close>

text \<open>
  The constructors of \<^verbatim>\<open>Variable<N>\<close>: the nameless one generates the name from the
  index (\<^verbatim>\<open>std::string("_") + std::to_string(N)\<close>).
\<close>

definition digit_char :: "nat \<Rightarrow> char" where
  "digit_char d = ''0123456789'' ! d"

fun show_nat :: "nat \<Rightarrow> string" where
  "show_nat n = (if n < 10 then [digit_char n] else show_nat (n div 10) @ [digit_char (n mod 10)])"

declare show_nat.simps [simp del]

definition variable :: "nat \<Rightarrow> expr" where
  "variable n = Variable n (''_'' @ show_nat n)"

definition named_variable :: "nat \<Rightarrow> string \<Rightarrow> expr" where
  "named_variable n name = Variable n name"

text \<open>
  The overloads of \<^verbatim>\<open>operations.h\<close> used below. Each binary operator has three: both
  operands are expressions (\<open>EE\<close>), or one of them is a plain operand (\<open>ET\<close>, \<open>TE\<close>), which
  is wrapped in a \<^verbatim>\<open>Constant<T>\<close>.

  The plain operand is a forwarding reference \<^verbatim>\<open>T &&y\<close>. For an rvalue of type \<^verbatim>\<open>U\<close> (a
  literal, a temporary) \<^verbatim>\<open>T\<close> is deduced as \<^verbatim>\<open>U\<close> and the \<^verbatim>\<open>Constant<U>\<close> copies it. For an
  lvalue (a variable of the caller) \<^verbatim>\<open>T\<close> is deduced as \<^verbatim>\<open>U&\<close>, and the \<^verbatim>\<open>Constant<U&>\<close> holds
  a reference to that variable.
\<close>

datatype plain = Rvalue val | Lvalue ty addr

fun wrap :: "plain \<Rightarrow> held" where
  "wrap (Rvalue v) = Held v"
| "wrap (Lvalue u a) = Ref u a"

definition plus_EE :: "expr \<Rightarrow> expr \<Rightarrow> expr" where
  "plus_EE x y = Compound Std_plus [x, y]"

definition plus_ET :: "expr \<Rightarrow> plain \<Rightarrow> expr" where
  "plus_ET x y = Compound Std_plus [x, Constant (wrap y)]"

definition plus_TE :: "plain \<Rightarrow> expr \<Rightarrow> expr" where
  "plus_TE x y = Compound Std_plus [Constant (wrap x), y]"

definition minus_EE :: "expr \<Rightarrow> expr \<Rightarrow> expr" where
  "minus_EE x y = Compound Std_minus [x, y]"

definition minus_ET :: "expr \<Rightarrow> plain \<Rightarrow> expr" where
  "minus_ET x y = Compound Std_minus [x, Constant (wrap y)]"

definition minus_TE :: "plain \<Rightarrow> expr \<Rightarrow> expr" where
  "minus_TE x y = Compound Std_minus [Constant (wrap x), y]"

definition less_EE :: "expr \<Rightarrow> expr \<Rightarrow> expr" where
  "less_EE x y = Compound Std_less [x, y]"

definition and_EE :: "expr \<Rightarrow> expr \<Rightarrow> expr" where
  "and_EE x y = Compound Std_logical_and [x, y]"

definition or_EE :: "expr \<Rightarrow> expr \<Rightarrow> expr" where
  "or_EE x y = Compound Std_logical_or [x, y]"

definition not_E :: "expr \<Rightarrow> expr" where
  "not_E x = Compound Std_logical_not [x]"

definition negate_E :: "expr \<Rightarrow> expr" where
  "negate_E x = Compound Std_negate [x]"

subsection \<open>Printing\<close>

text \<open>The specialisations of \<^verbatim>\<open>print::to_string<Op>()\<close>; the primary template has no body.\<close>

fun to_string_op :: "op \<Rightarrow> string option" where
  "to_string_op Std_plus = Some ''+''"
| "to_string_op Std_multiplies = Some ''*''"
| "to_string_op Std_divides = Some ''/''"
| "to_string_op Std_minus = Some ''-''"
| "to_string_op Std_negate = Some ''-''"
| "to_string_op Std_equal_to = Some ''==''"
| "to_string_op Std_not_equal_to = Some ''!=''"
| "to_string_op Std_less = Some ''<''"
| "to_string_op Std_less_equal = Some ''<=''"
| "to_string_op Std_greater_equal = Some ''>=''"
| "to_string_op Std_greater = Some ''>''"
| "to_string_op Std_logical_and = Some ''&&''"
| "to_string_op Std_logical_or = Some ''||''"
| "to_string_op Std_logical_not = Some ''not ''"
| "to_string_op Std_unary_negate = Some ''not ''"
| "to_string_op Std_bit_xor = Some ''^''"
| "to_string_op (Custom c) = cop_symbol c"

text \<open>
  \<^verbatim>\<open>print::prefixed<Op>::value\<close> holds when \<^verbatim>\<open>decltype(X::prefixed)\<close> is well-formed for
  \<^verbatim>\<open>X = Op<>\<close>, that is, when the class has a member of that name, whatever its value. No
  class of \<^verbatim>\<open><functional>\<close> has one.
\<close>

fun prefixed :: "op \<Rightarrow> bool" where
  "prefixed (Custom c) = (cop_prefixed c \<noteq> None)"
| "prefixed _ = False"

text \<open>What \<^verbatim>\<open>os << v\<close> writes for a value (\<^verbatim>\<open>bool\<close> without \<^verbatim>\<open>boolalpha\<close>).\<close>

fun show_val :: "val \<Rightarrow> string" where
  "show_val (VInt i) = (if i < 0 then ''-'' @ show_nat (nat (- i)) else show_nat (nat i))"
| "show_val (VBool b) = (if b then ''1'' else ''0'')"
| "show_val (VStr s) = s"

text \<open>
  \<open>to_string st e\<close> is \<^verbatim>\<open>to_string(expr)\<close>, the text that \<^verbatim>\<open>operator<<\<close> writes for an expression:
  one overload for each of the three classes, and for a compound the overloads for one
  and for two nested expressions. \<open>print_tuple\<close> is \<^verbatim>\<open>operator<<\<close> for the tuple
  (\<^verbatim>\<open>print\<close> and \<^verbatim>\<open>emit\<close>). A constant is printed by calling it, \<^verbatim>\<open>os << expr()\<close>, so
  printing reads the store as a call does. \<open>None\<close>: there is no text, because the program
  does not link for want of a \<^verbatim>\<open>to_string<Op>\<close> specialisation, or because a constant
  refers to a variable that is gone.
\<close>

fun to_string :: "store \<Rightarrow> expr \<Rightarrow> string option"
  and print_tuple :: "store \<Rightarrow> expr list \<Rightarrow> string option" where
  "to_string st (Constant h) =
     (case stored st h of
        None \<Rightarrow> None
      | Some v \<Rightarrow> Some (show_val v))"
| "to_string st (Variable n name) = Some name"
| "to_string st (Compound opr es) =
     (case to_string_op opr of
        None \<Rightarrow> None
      | Some symb \<Rightarrow>
          (case es of
             [e] \<Rightarrow>
               (case to_string st e of
                  None \<Rightarrow> None
                | Some c \<Rightarrow>
                    if prefixed opr then Some (symb @ ''('' @ c @ '')'')
                    else Some (symb @ c))
           | [e1, e2] \<Rightarrow>
               if prefixed opr then
                 (case print_tuple st es of
                    None \<Rightarrow> None
                  | Some cs \<Rightarrow> Some (symb @ ''('' @ cs @ '')''))
               else
                 (case to_string st e1 of
                    None \<Rightarrow> None
                  | Some c1 \<Rightarrow>
                      (case to_string st e2 of
                         None \<Rightarrow> None
                       | Some c2 \<Rightarrow> Some (c1 @ '' '' @ symb @ '' '' @ c2)))
           | _ \<Rightarrow>
               (case print_tuple st es of
                  None \<Rightarrow> None
                | Some cs \<Rightarrow> Some (symb @ ''('' @ cs @ '')''))))"
| "print_tuple st [] = Some []"
| "print_tuple st (e # es) =
     (case to_string st e of
        None \<Rightarrow> None
      | Some c \<Rightarrow>
          (case print_tuple st es of
             None \<Rightarrow> None
           | Some cs \<Rightarrow> Some (c @ (if es = [] then [] else '', '') @ cs)))"

text \<open>
  The operation of \<^verbatim>\<open>example/prefixed_operator.cc\<close>: it declares \<^verbatim>\<open>prefixed\<close>, prints as
  \<^verbatim>\<open>?:\<close> and selects one of two operands of the same type by a condition.
\<close>

definition CustomOperator :: custom_op where
  "CustomOperator =
     \<lparr>cop_symbol = Some ''?:'',
      cop_prefixed = Some True,
      cop_type = (\<lambda>ts. case ts of
          [c, a, b] \<Rightarrow> if arithmetic c \<and> a = b then Some a else None
        | _ \<Rightarrow> None),
      cop_call = (\<lambda>vs. case vs of
          [c, a, b] \<Rightarrow>
            (case truthy c of
               Some x \<Rightarrow> if type_of a = type_of b then Inr (if x then a else b) else Inl BuildFailure
             | None \<Rightarrow> Inl BuildFailure)
        | _ \<Rightarrow> Inl BuildFailure)\<rparr>"

section \<open>Properties\<close>

subsection \<open>Auxiliary facts\<close>

lemmas op_defs = binary_ty_def unary_ty_def arith_ty_def compare_ty_def
  binary_val_def unary_val_def arith_val_def compare_val_def logical_val_def
  checked_def int_min_def int_max_def

lemma evaluate_builds: "builds e args \<Longrightarrow> evaluate s st p e args = run s st p e args"
  by (auto simp: evaluate_def builds_def)

lemma evaluate_Inr: "evaluate s st p e args = Inr r \<Longrightarrow> run s st p e args = Inr r"
  by (simp add: evaluate_def split: option.splits)

lemma set_arrange: "set (arrange order ts) \<subseteq> (\<Union>t\<in>set ts. set t)"
  by (auto simp: arrange_def intro: nth_mem)

text \<open>Every event of a call is at the node called or below it.\<close>

lemma run_events_below:
  "run s st p e args = Inr (t, v) \<Longrightarrow> ev \<in> set t \<Longrightarrow> prefix p (path_of ev)"
  "run_list s st p i es args = Inr outs \<Longrightarrow> out \<in> set outs \<Longrightarrow> ev \<in> set (fst out) \<Longrightarrow>
     prefix p (path_of ev)"
proof (induction s st p e args and s st p i es args arbitrary: t v ev and outs out ev
    rule: run_run_list.induct)
  case (1 s st p h args)
  then show ?case by (auto split: option.splits)
next
  case (2 s st p n name args)
  then show ?case by (auto split: if_splits)
next
  case (3 s st p opr es args)
  show ?case
  proof (cases "invoker_of opr")
    case Common
    with "3.prems" obtain outs where outs: "run_list s st p 0 es args = Inr outs"
      and t: "t = Enter p # arrange (s p (length es)) (map fst outs) @ [Apply p]"
      by (auto split: sum.splits)
    from "3.prems"(2) t consider "ev = Enter p" | "ev = Apply p"
      | "ev \<in> set (arrange (s p (length es)) (map fst outs))"
      by auto
    then show ?thesis
    proof cases
      case 3
      with set_arrange obtain out where "out \<in> set outs" "ev \<in> set (fst out)"
        by fastforce
      with "3.IH"(1)[OF Common outs] show ?thesis by blast
    qed auto
  next
    case Lazy_and
    with "3.prems" obtain e1 e2 where es: "es = [e1, e2]"
      by (auto split: list.splits)
    from "3.prems" Lazy_and es obtain t1 res1 where r1: "run s st (p @ [0]) e1 args = Inr (t1, res1)"
      by (auto split: sum.splits)
    have b1: "prefix p (path_of ev)" if "ev \<in> set t1" for ev
      using "3.IH"(2)[OF Lazy_and es refl refl r1 that] by (rule append_prefixD)
    show ?thesis
    proof (cases "truthy res1")
      case None
      with "3.prems" Lazy_and es r1 show ?thesis by auto
    next
      case (Some b)
      show ?thesis
      proof (cases b)
        case False
        with "3.prems" Lazy_and es r1 Some b1 show ?thesis by auto
      next
        case True
        with Some have tr: "truthy res1 = Some True" by simp
        with "3.prems" Lazy_and es r1 obtain t2 res2
          where r2: "run s st (p @ [1]) e2 args = Inr (t2, res2)"
            and t: "t = Enter p # t1 @ t2 @ [Apply p]"
          by (auto split: sum.splits)
        have b2: "prefix p (path_of ev)" if "ev \<in> set t2" for ev
          using "3.IH"(3)[OF Lazy_and es refl refl r1 refl tr refl r2 that]
          by (rule append_prefixD)
        from "3.prems"(2) t b1 b2 show ?thesis by auto
      qed
    qed
  next
    case Lazy_or
    with "3.prems" obtain e1 e2 where es: "es = [e1, e2]"
      by (auto split: list.splits)
    from "3.prems" Lazy_or es obtain t1 res1 where r1: "run s st (p @ [0]) e1 args = Inr (t1, res1)"
      by (auto split: sum.splits)
    have b1: "prefix p (path_of ev)" if "ev \<in> set t1" for ev
      using "3.IH"(4)[OF Lazy_or es refl refl r1 that] by (rule append_prefixD)
    show ?thesis
    proof (cases "truthy res1")
      case None
      with "3.prems" Lazy_or es r1 show ?thesis by auto
    next
      case (Some b)
      show ?thesis
      proof (cases b)
        case True
        with "3.prems" Lazy_or es r1 Some b1 show ?thesis by auto
      next
        case False
        with Some have fl: "truthy res1 = Some False" by simp
        with "3.prems" Lazy_or es r1 obtain t2 res2
          where r2: "run s st (p @ [1]) e2 args = Inr (t2, res2)"
            and t: "t = Enter p # t1 @ t2 @ [Apply p]"
          by (auto split: sum.splits)
        have b2: "prefix p (path_of ev)" if "ev \<in> set t2" for ev
          using "3.IH"(5)[OF Lazy_or es refl refl r1 refl fl refl r2 that]
          by (rule append_prefixD)
        from "3.prems"(2) t b1 b2 show ?thesis by auto
      qed
    qed
  qed
next
  case (4 s st p i args)
  then show ?case by auto
next
  case (5 s st p i e es args)
  from "5.prems"(1) obtain o1 os where r: "run s st (p @ [i]) e args = Inr o1"
    and rs: "run_list s st p (Suc i) es args = Inr os" and outs: "outs = o1 # os"
    by (auto split: sum.splits)
  from "5.prems"(2) outs consider "out = o1" | "out \<in> set os" by auto
  then show ?case
  proof cases
    case 1
    with r "5.prems"(3) "5.IH"(1)[of "fst o1" "snd o1" ev] show ?thesis
      by (auto dest: append_prefixD)
  next
    case 2
    with "5.IH"(2)[OF r rs] "5.prems"(3) show ?thesis by blast
  qed
qed

lemma sibling_paths: "prefix (p @ [a]) q \<Longrightarrow> prefix (p @ [b]) q \<Longrightarrow> a = b"
  by (auto simp: prefix_def)

text \<open>A call of the nested expression \<open>a\<close> leaves no event at or below its sibling \<open>b\<close>.\<close>

lemma not_below_sibling:
  assumes "run s st (p @ [a]) e args = Inr (t, v)" and "a \<noteq> b"
  shows "\<not> (\<exists>ev\<in>set (Enter p # t). prefix (p @ [b]) (path_of ev))"
proof
  assume "\<exists>ev\<in>set (Enter p # t). prefix (p @ [b]) (path_of ev)"
  then obtain ev where ev: "ev \<in> set (Enter p # t)" and pre: "prefix (p @ [b]) (path_of ev)"
    by blast
  show False
  proof (cases "ev = Enter p")
    case True
    with pre show False by simp
  next
    case False
    with ev have "ev \<in> set t" by simp
    from run_events_below(1)[OF assms(1) this] pre assms(2) show False
      by (auto dest: sibling_paths)
  qed
qed

subsection \<open>Constants and variables\<close>

text \<open>
  Claim C6. A constant called with any arguments, also with none, returns the value it
  holds: the call always builds, enters the constant only, and its result is \<open>v\<close>, for
  a constant that holds a copy \<open>v\<close> and for one whose \<^verbatim>\<open>value_\<close> refers to a variable that
  holds \<open>v\<close>.
\<close>

theorem C6_constant_returns_value:
  "evaluate s st p (Constant (Held v)) args = Inr ([Enter p], v)
   \<and> (stored st h = Some v \<longrightarrow> evaluate s st p (Constant h) args = Inr ([Enter p], v))"
  by (simp add: evaluate_def)

theorem C6_constant_returns_value_witness:
  "evaluate left_to_right Map.empty [] (Constant (Held (VInt 5))) [] = Inr ([Enter []], VInt 5)
   \<and> evaluate left_to_right [0 \<mapsto> VStr ''a''] [] (Constant (Ref TStr 0)) [VInt 1, VInt 2]
       = Inr ([Enter []], VStr ''a'')"
  using C6_constant_returns_value [of left_to_right Map.empty "[]" "VInt 5" "[]" "Held (VInt 5)"]
    C6_constant_returns_value [of left_to_right "[0 \<mapsto> VStr ''a'']" "[]" "VStr ''a''"
      "[VInt 1, VInt 2]" "Ref TStr 0"]
  by simp

text \<open>
  Claim C5. A variable of index \<open>n\<close> (indices start at 1) called with at least \<open>n\<close>
  arguments returns the \<open>n\<close>-th of them; called with fewer, the call does not build, which
  the number of arguments alone decides.
\<close>

theorem C5_variable_positional:
  "(1 \<le> n \<and> n \<le> length args \<longrightarrow>
      evaluate s st p (Variable n name) args = Inr ([Enter p], args ! (n - 1)))
   \<and> (length args < n \<longrightarrow>
      \<not> builds (Variable n name) args
      \<and> evaluate s st p (Variable n name) args = Inl BuildFailure)"
  by (simp add: evaluate_def builds_def)

theorem C5_variable_positional_witness:
  "evaluate left_to_right Map.empty [] (Variable 2 ''y'') [VInt 3, VInt 4] = Inr ([Enter []], VInt 4)
   \<and> \<not> builds (Variable 2 ''y'') [VInt 3]
   \<and> evaluate left_to_right Map.empty [] (Variable 2 ''y'') [VInt 3] = Inl BuildFailure"
  using C5_variable_positional [of 2 "[VInt 3, VInt 4]" left_to_right Map.empty "[]" "''y''"]
    C5_variable_positional [of 2 "[VInt 3]" left_to_right Map.empty "[]" "''y''"]
  by simp

subsection \<open>Nested sums\<close>

text \<open>
  Claim C1, as the code has it. The expression \<open>(x + y) + (x - y)\<close> built from
  \<^verbatim>\<open>Variable<1>\<close> and \<^verbatim>\<open>Variable<2>\<close> with the operator overloads, called with 10 and -5,
  returns 20, whatever the order in which the operands are called.
\<close>

theorem C1_nested_sum_returns_20:
  "value_of (evaluate s st []
      (plus_EE (plus_EE (variable 1) (variable 2)) (minus_EE (variable 1) (variable 2)))
      [VInt 10, VInt (- 5)]) = Inr (VInt 20)"
  by (simp add: evaluate_def value_of_def plus_EE_def minus_EE_def variable_def op_defs)

text \<open>Claim C1 as stated fails: the call does not return 10.\<close>

theorem C1_nested_sum_not_10:
  "value_of (evaluate left_to_right Map.empty []
      (plus_EE (plus_EE (variable 1) (variable 2)) (minus_EE (variable 1) (variable 2)))
      [VInt 10, VInt (- 5)]) \<noteq> Inr (VInt 10)"
  by (simp add: evaluate_def value_of_def plus_EE_def minus_EE_def variable_def op_defs)

subsection \<open>Printing\<close>

text \<open>
  Claim C7. A compound of two nested expressions whose operation has a symbol prints as
  \<open>symbol(child1, child2)\<close> when the operation is marked prefix, and as
  \<open>child1 symbol child2\<close> with single spaces otherwise; \<open>x + y\<close> prints as \<^verbatim>\<open>x + y\<close>.
\<close>

theorem C7_render_binary:
  "(to_string_op opr = Some symb \<and> to_string st c1 = Some r1 \<and> to_string st c2 = Some r2 \<longrightarrow>
      to_string st (Compound opr [c1, c2]) =
        Some (if prefixed opr then symb @ ''('' @ r1 @ '', '' @ r2 @ '')''
              else r1 @ '' '' @ symb @ '' '' @ r2))
   \<and> to_string st (plus_EE (named_variable 1 ''x'') (named_variable 2 ''y'')) = Some ''x + y''"
  by (simp add: plus_EE_def named_variable_def)

theorem C7_render_binary_witness:
  "to_string Map.empty (Compound (Custom CustomOperator) [named_variable 1 ''x'', named_variable 2 ''y''])
     = Some ''?:(x, y)''
   \<and> to_string Map.empty (less_EE (named_variable 1 ''x'') (named_variable 2 ''y'')) = Some ''x < y''"
  using C7_render_binary [of "Custom CustomOperator" "''?:''" Map.empty "named_variable 1 ''x''" "''x''"
      "named_variable 2 ''y''" "''y''"]
    C7_render_binary [of Std_less "''<''" Map.empty "named_variable 1 ''x''" "''x''"
      "named_variable 2 ''y''" "''y''"]
  by (simp add: named_variable_def CustomOperator_def less_EE_def)

text \<open>
  Claim C8. A compound of one nested expression whose operation has a symbol prints as
  \<open>symbol(child)\<close> when the operation is marked prefix, and as the symbol immediately
  followed by the child otherwise; \<open>-x\<close> prints as \<^verbatim>\<open>-x\<close>, and a logical negation prints
  with a leading \<^verbatim>\<open>not \<close>.
\<close>

theorem C8_render_unary:
  "(to_string_op opr = Some symb \<and> to_string st c = Some r \<longrightarrow>
      to_string st (Compound opr [c]) =
        Some (if prefixed opr then symb @ ''('' @ r @ '')'' else symb @ r))
   \<and> to_string st (negate_E (named_variable 1 ''x'')) = Some ''-x''
   \<and> (to_string st c = Some r \<longrightarrow> to_string st (not_E c) = Some (''not '' @ r))"
  by (simp add: negate_E_def not_E_def named_variable_def)

theorem C8_render_unary_witness:
  "to_string Map.empty (Compound (Custom CustomOperator) [named_variable 1 ''x'']) = Some ''?:(x)''
   \<and> to_string Map.empty (Compound Std_negate [Constant (Held (VInt 7))]) = Some ''-7''
   \<and> to_string Map.empty (not_E (named_variable 1 ''x'')) = Some ''not x''"
  using C8_render_unary [of "Custom CustomOperator" "''?:''" Map.empty "named_variable 1 ''x''" "''x''"]
    C8_render_unary [of Std_negate "''-''" Map.empty "Constant (Held (VInt 7))" "''7''"]
    C8_render_unary [of Std_negate "''-''" Map.empty "named_variable 1 ''x''" "''x''"]
  by (simp add: named_variable_def CustomOperator_def show_nat.simps digit_char_def)

subsection \<open>The common rule\<close>

lemma valid_right_to_left: "valid_schedule right_to_left"
  by (simp add: valid_schedule_def right_to_left_def)

lemma valid_left_to_right: "valid_schedule left_to_right"
  by (simp add: valid_schedule_def left_to_right_def)

lemma run_list_length: "run_list s st p i es args = Inr outs \<Longrightarrow> length outs = length es"
  by (induction es arbitrary: i outs) (auto split: sum.splits)

lemma run_list_nth:
  "run_list s st p i es args = Inr outs \<Longrightarrow> j < length es \<Longrightarrow>
     run s st (p @ [i + j]) (es ! j) args = Inr (outs ! j)"
proof (induction es arbitrary: i j outs)
  case Nil
  then show ?case by simp
next
  case (Cons e es)
  from Cons.prems(1) obtain out os where r: "run s st (p @ [i]) e args = Inr out"
    and rs: "run_list s st p (Suc i) es args = Inr os" and outs: "outs = out # os"
    by (auto split: sum.splits)
  show ?case
  proof (cases j)
    case 0
    with r outs show ?thesis by simp
  next
    case (Suc k)
    with Cons.prems(2) have "k < length es" by simp
    from Cons.IH[OF rs this] Suc outs show ?thesis by simp
  qed
qed

lemma arrange_in_tuple_order: "arrange [0..<length ts] ts = concat ts"
  by (simp add: arrange_def map_nth)

text \<open>
  A valid schedule names every tuple index once, so the trace of the nested calls holds the
  trace of each nested call once.
\<close>

lemma arrange_valid:
  assumes "valid_schedule s"
  shows "arrange (s p (length ts)) ts = concat (map (\<lambda>i. ts ! i) (s p (length ts)))
    \<and> distinct (s p (length ts)) \<and> set (s p (length ts)) = {0..<length ts}"
proof -
  from assms have v: "distinct (s p (length ts))" "set (s p (length ts)) = {0..<length ts}"
    by (simp_all add: valid_schedule_def)
  from v(2) have "filter (\<lambda>i. i < length ts) (s p (length ts)) = s p (length ts)"
    by (simp add: filter_id_conv)
  with v show ?thesis by (simp add: arrange_def)
qed

text \<open>
  What the primary \<^verbatim>\<open>Invoker\<close> does in any order of the calls: every nested expression is
  called with the same arguments, the operation is applied to the results in tuple order,
  and it is applied after the calls.
\<close>

lemma common_invoker_rule:
  assumes "invoker_of opr = Common" and "run s st p (Compound opr es) args = Inr (t, v)"
  shows "\<exists>outs. length outs = length es
      \<and> (\<forall>j<length es. run s st (p @ [j]) (es ! j) args = Inr (outs ! j))
      \<and> apply_op opr (map snd outs) = Inr v
      \<and> t = Enter p # arrange (s p (length es)) (map fst outs) @ [Apply p]"
proof -
  from assms obtain outs where outs: "run_list s st p 0 es args = Inr outs"
    and v: "apply_op opr (map snd outs) = Inr v"
    and t: "t = Enter p # arrange (s p (length es)) (map fst outs) @ [Apply p]"
    by (auto split: sum.splits)
  from run_list_length[OF outs] run_list_nth[OF outs] v t show ?thesis
    by auto
qed

text \<open>
  Where the implementation calls the arguments of a call from left to right, the nested
  calls of the primary \<^verbatim>\<open>Invoker\<close> follow one another in tuple order.
\<close>

lemma common_invoker_left_to_right:
  assumes "invoker_of opr = Common"
    and "run left_to_right st p (Compound opr es) args = Inr (t, v)"
  shows "\<exists>outs. run_list left_to_right st p 0 es args = Inr outs
      \<and> t = Enter p # concat (map fst outs) @ [Apply p]"
proof -
  from assms obtain outs where outs: "run_list left_to_right st p 0 es args = Inr outs"
    and t: "t = Enter p # arrange (left_to_right p (length es)) (map fst outs) @ [Apply p]"
    by (auto split: sum.splits)
  from run_list_length[OF outs] have "left_to_right p (length es) = [0..<length (map fst outs)]"
    by (simp add: left_to_right_def)
  with t have "t = Enter p # concat (map fst outs) @ [Apply p]"
    by (simp only: arrange_in_tuple_order)
  with outs show ?thesis by blast
qed

text \<open>
  Claim C2 asks for the nested calls in tuple order. The code leaves the order to the
  implementation: for the schedule that calls the arguments of a call from right to left,
  the call of \<open>x + y\<close> enters its second nested expression before its first.
\<close>

theorem C2_right_to_left_call_order:
  "valid_schedule right_to_left
   \<and> evaluate right_to_left Map.empty [] (plus_EE (variable 1) (variable 2)) [VInt 1, VInt 2]
       = Inr ([Enter [], Enter [1], Enter [0], Apply []], VInt 3)"
  by (simp add: valid_right_to_left evaluate_def plus_EE_def variable_def op_defs
      arrange_def right_to_left_def)

subsection \<open>Short-circuit evaluation\<close>

text \<open>
  Claim C3. For a logical-AND compound of two nested expressions \<open>c1\<close> and \<open>c2\<close> and a
  call that builds: if the call of \<open>c1\<close> returns a value that converts to \<open>false\<close>, the
  compound returns \<open>false\<close> and its trace has no event at or below \<open>c2\<close>; if it
  returns a value that converts to \<open>true\<close> and the call of \<open>c2\<close> (with the same arguments)
  returns, the compound returns the conjunction of the two, after both calls.
\<close>

theorem C3_logical_and_short_circuit:
  assumes "builds (Compound Std_logical_and [c1, c2]) args"
    and "evaluate s st (p @ [0]) c1 args = Inr (t1, res1)"
    and "truthy res1 = Some b1"
  shows "(\<not> b1 \<longrightarrow>
            evaluate s st p (Compound Std_logical_and [c1, c2]) args = Inr (Enter p # t1, VBool False)
            \<and> \<not> (\<exists>ev\<in>set (Enter p # t1). prefix (p @ [1]) (path_of ev)))
       \<and> (b1 \<and> evaluate s st (p @ [1]) c2 args = Inr (t2, res2) \<and> truthy res2 = Some b2 \<longrightarrow>
            evaluate s st p (Compound Std_logical_and [c1, c2]) args =
              Inr (Enter p # t1 @ t2 @ [Apply p], VBool (b1 \<and> b2)))"
proof -
  have r1: "run s st (p @ [0]) c1 args = Inr (t1, res1)"
    using assms(2) by (rule evaluate_Inr)
  have ev: "evaluate s st p (Compound Std_logical_and [c1, c2]) args =
      run s st p (Compound Std_logical_and [c1, c2]) args"
    using assms(1) by (rule evaluate_builds)
  have first: "evaluate s st p (Compound Std_logical_and [c1, c2]) args =
      Inr (Enter p # t1, VBool False)" if "\<not> b1"
    using that r1 assms(3) by (simp add: ev)
  have apart: "\<not> (\<exists>ev\<in>set (Enter p # t1). prefix (p @ [1]) (path_of ev))"
    using not_below_sibling[OF r1, of 1] by simp
  have second: "evaluate s st p (Compound Std_logical_and [c1, c2]) args =
      Inr (Enter p # t1 @ t2 @ [Apply p], VBool (b1 \<and> b2))"
    if "b1" "evaluate s st (p @ [1]) c2 args = Inr (t2, res2)" "truthy res2 = Some b2"
  proof -
    have r2: "run s st (p @ [1]) c2 args = Inr (t2, res2)"
      using that(2) by (rule evaluate_Inr)
    show ?thesis
      using that(1,3) r1 r2 assms(3) by (simp add: ev binary_val_def logical_val_def)
  qed
  from first apart second show ?thesis by blast
qed

theorem C3_logical_and_short_circuit_witness:
  "evaluate left_to_right Map.empty [] (and_EE (variable 1) (variable 2)) [VInt 0, VInt 7]
      = Inr ([Enter [], Enter [0]], VBool False)
   \<and> \<not> (\<exists>ev\<in>set [Enter [], Enter [0]]. prefix [1] (path_of ev))
   \<and> evaluate left_to_right Map.empty [] (and_EE (variable 1) (variable 2)) [VInt 2, VInt 7]
      = Inr ([Enter [], Enter [0], Enter [1], Apply []], VBool True)"
proof -
  have b: "builds (Compound Std_logical_and [variable 1, variable 2]) [VInt i, VInt j]" for i j
    by (simp add: builds_def variable_def binary_ty_def)
  have e1: "evaluate left_to_right Map.empty ([] @ [0]) (variable 1) [VInt i, VInt j] = Inr ([Enter [0]], VInt i)" for i j
    by (simp add: evaluate_def variable_def)
  have e2: "evaluate left_to_right Map.empty ([] @ [1]) (variable 2) [VInt i, VInt j] = Inr ([Enter [1]], VInt j)" for i j
    by (simp add: evaluate_def variable_def)
  have t0: "truthy (VInt 0) = Some False" and t2: "truthy (VInt 2) = Some True"
    and t7: "truthy (VInt 7) = Some True"
    by simp_all
  from C3_logical_and_short_circuit [OF b e1 t0, of 7 "[]" "VBool False" False]
    C3_logical_and_short_circuit [OF b e1 t2, of 7 "[Enter [1]]" "VInt 7" True] e2 t7
  show ?thesis by (simp add: and_EE_def)
qed

text \<open>
  Claim C4. For a logical-OR compound of two nested expressions \<open>c1\<close> and \<open>c2\<close> and a
  call that builds: if the call of \<open>c1\<close> returns a value that converts to \<open>true\<close>, the
  compound returns \<open>true\<close> and its trace has no event at or below \<open>c2\<close>; if it
  returns a value that converts to \<open>false\<close> and the call of \<open>c2\<close> (with the same
  arguments) returns, the compound returns the disjunction of the two, after both calls.
\<close>

theorem C4_logical_or_short_circuit:
  assumes "builds (Compound Std_logical_or [c1, c2]) args"
    and "evaluate s st (p @ [0]) c1 args = Inr (t1, res1)"
    and "truthy res1 = Some b1"
  shows "(b1 \<longrightarrow>
            evaluate s st p (Compound Std_logical_or [c1, c2]) args = Inr (Enter p # t1, VBool True)
            \<and> \<not> (\<exists>ev\<in>set (Enter p # t1). prefix (p @ [1]) (path_of ev)))
       \<and> (\<not> b1 \<and> evaluate s st (p @ [1]) c2 args = Inr (t2, res2) \<and> truthy res2 = Some b2 \<longrightarrow>
            evaluate s st p (Compound Std_logical_or [c1, c2]) args =
              Inr (Enter p # t1 @ t2 @ [Apply p], VBool (b1 \<or> b2)))"
proof -
  have r1: "run s st (p @ [0]) c1 args = Inr (t1, res1)"
    using assms(2) by (rule evaluate_Inr)
  have ev: "evaluate s st p (Compound Std_logical_or [c1, c2]) args =
      run s st p (Compound Std_logical_or [c1, c2]) args"
    using assms(1) by (rule evaluate_builds)
  have first: "evaluate s st p (Compound Std_logical_or [c1, c2]) args =
      Inr (Enter p # t1, VBool True)" if "b1"
    using that r1 assms(3) by (simp add: ev)
  have apart: "\<not> (\<exists>ev\<in>set (Enter p # t1). prefix (p @ [1]) (path_of ev))"
    using not_below_sibling[OF r1, of 1] by simp
  have second: "evaluate s st p (Compound Std_logical_or [c1, c2]) args =
      Inr (Enter p # t1 @ t2 @ [Apply p], VBool (b1 \<or> b2))"
    if "\<not> b1" "evaluate s st (p @ [1]) c2 args = Inr (t2, res2)" "truthy res2 = Some b2"
  proof -
    have r2: "run s st (p @ [1]) c2 args = Inr (t2, res2)"
      using that(2) by (rule evaluate_Inr)
    show ?thesis
      using that(1,3) r1 r2 assms(3) by (simp add: ev binary_val_def logical_val_def)
  qed
  from first apart second show ?thesis by blast
qed

theorem C4_logical_or_short_circuit_witness:
  "evaluate left_to_right Map.empty [] (or_EE (variable 1) (variable 2)) [VInt 5, VInt 0]
      = Inr ([Enter [], Enter [0]], VBool True)
   \<and> \<not> (\<exists>ev\<in>set [Enter [], Enter [0]]. prefix [1] (path_of ev))
   \<and> evaluate left_to_right Map.empty [] (or_EE (variable 1) (variable 2)) [VInt 0, VInt 0]
      = Inr ([Enter [], Enter [0], Enter [1], Apply []], VBool False)"
proof -
  have b: "builds (Compound Std_logical_or [variable 1, variable 2]) [VInt i, VInt j]" for i j
    by (simp add: builds_def variable_def binary_ty_def)
  have e1: "evaluate left_to_right Map.empty ([] @ [0]) (variable 1) [VInt i, VInt j] = Inr ([Enter [0]], VInt i)" for i j
    by (simp add: evaluate_def variable_def)
  have e2: "evaluate left_to_right Map.empty ([] @ [1]) (variable 2) [VInt i, VInt j] = Inr ([Enter [1]], VInt j)" for i j
    by (simp add: evaluate_def variable_def)
  have t0: "truthy (VInt 0) = Some False" and t5: "truthy (VInt 5) = Some True"
    by simp_all
  from C4_logical_or_short_circuit [OF b e1 t5, of 0 "[]" "VBool False" False]
    C4_logical_or_short_circuit [OF b e1 t0, of 0 "[Enter [1]]" "VInt 0" False] e2 t0
  show ?thesis by (simp add: or_EE_def)
qed

lemma and_type: "result_type (Compound Std_logical_and [c1, c2]) ts = Some ty \<Longrightarrow> ty = TBool"
  by (simp split: option.splits list.splits if_splits)

lemma or_type: "result_type (Compound Std_logical_or [c1, c2]) ts = Some ty \<Longrightarrow> ty = TBool"
  by (simp split: option.splits list.splits if_splits)

lemma and_run:
  "run s st p (Compound Std_logical_and [c1, c2]) args = Inr (t, v) \<Longrightarrow> type_of v = TBool"
  by (auto simp: binary_val_def logical_val_def split: sum.splits option.splits bool.splits)

lemma or_run:
  "run s st p (Compound Std_logical_or [c1, c2]) args = Inr (t, v) \<Longrightarrow> type_of v = TBool"
  by (auto simp: binary_val_def logical_val_def split: sum.splits option.splits bool.splits)

text \<open>
  Claim C10. A logical-AND or logical-OR compound of two nested expressions has the result
  type \<^verbatim>\<open>bool\<close>: the deduced return type of a call that builds is \<^verbatim>\<open>bool\<close>, and every
  value that a call returns is a \<^verbatim>\<open>bool\<close>, also when the nested results are \<^verbatim>\<open>int\<close>.
\<close>

theorem C10_logical_result_is_bool:
  assumes "opr = Std_logical_and \<or> opr = Std_logical_or"
  shows "(result_type (Compound opr [c1, c2]) ts = Some ty \<longrightarrow> ty = TBool)
       \<and> (evaluate s st p (Compound opr [c1, c2]) args = Inr (t, v) \<longrightarrow> type_of v = TBool)"
proof -
  have "evaluate s st p e args = Inr (t, v) \<Longrightarrow> run s st p e args = Inr (t, v)" for e
    by (rule evaluate_Inr)
  with assms show ?thesis
    by (blast dest: and_type or_type and_run or_run)
qed

theorem C10_logical_result_is_bool_witness:
  "evaluate left_to_right Map.empty [] (Compound Std_logical_and [Variable 1 ''x'', Variable 2 ''y''])
      [VInt 2, VInt 3] = Inr ([Enter [], Enter [0], Enter [1], Apply []], VBool True)
   \<and> type_of (VBool True) = TBool"
  using C10_logical_result_is_bool [of Std_logical_and "Variable 1 ''x''" "Variable 2 ''y''"
      "[TInt, TInt]" TBool left_to_right Map.empty "[]" "[VInt 2, VInt 3]"
      "[Enter [], Enter [0], Enter [1], Apply []]" "VBool True"]
  by (simp add: evaluate_def binary_ty_def binary_val_def logical_val_def)

subsection \<open>Repeatability\<close>

lemma value_of_Inl: "value_of r = value_of r' \<Longrightarrow> r = Inl err \<Longrightarrow> r' = Inl err"
  by (cases r') (auto simp: value_of_def)

lemma value_of_Inr: "value_of r = value_of r' \<Longrightarrow> r = Inr (t, v) \<Longrightarrow> \<exists>t'. r' = Inr (t', v)"
  by (cases r') (auto simp: value_of_def)

lemma value_of_common:
  "invoker_of opr = Common \<Longrightarrow> value_of (run s st p (Compound opr es) args) =
     (case map_sum id (map snd) (run_list s st p 0 es args) of
        Inl err \<Rightarrow> Inl err
      | Inr vs \<Rightarrow> apply_op opr vs)"
  by (simp add: value_of_def split: sum.splits)

lemma value_of_lazy_and:
  "value_of (run s st p (Compound Std_logical_and [e1, e2]) args) =
     (case value_of (run s st (p @ [0]) e1 args) of
        Inl err \<Rightarrow> Inl err
      | Inr res1 \<Rightarrow>
          (case truthy res1 of
             None \<Rightarrow> Inl BuildFailure
           | Some False \<Rightarrow> Inr (VBool False)
           | Some True \<Rightarrow>
               (case value_of (run s st (p @ [1]) e2 args) of
                  Inl err \<Rightarrow> Inl err
                | Inr res2 \<Rightarrow> apply_op Std_logical_and [res1, res2])))"
  by (simp add: value_of_def split: sum.splits option.splits bool.splits)

lemma value_of_lazy_or:
  "value_of (run s st p (Compound Std_logical_or [e1, e2]) args) =
     (case value_of (run s st (p @ [0]) e1 args) of
        Inl err \<Rightarrow> Inl err
      | Inr res1 \<Rightarrow>
          (case truthy res1 of
             None \<Rightarrow> Inl BuildFailure
           | Some True \<Rightarrow> Inr (VBool True)
           | Some False \<Rightarrow>
               (case value_of (run s st (p @ [1]) e2 args) of
                  Inl err \<Rightarrow> Inl err
                | Inr res2 \<Rightarrow> apply_op Std_logical_or [res1, res2])))"
  by (simp add: value_of_def split: sum.splits option.splits bool.splits)

lemma lazy_arity:
  "invoker_of opr \<noteq> Common \<Longrightarrow> length es \<noteq> 2 \<Longrightarrow> run s st p (Compound opr es) args = Inl BuildFailure"
  by (cases "invoker_of opr") (auto split: list.splits)

lemma invoker_lazy_and: "invoker_of opr = Lazy_and \<Longrightarrow> opr = Std_logical_and"
  by (cases opr) auto

lemma invoker_lazy_or: "invoker_of opr = Lazy_or \<Longrightarrow> opr = Std_logical_or"
  by (cases opr) auto

lemma run_list_values:
  assumes "\<And>e s p s' p'. e \<in> set es \<Longrightarrow> value_of (run s st p e args) = value_of (run s' st p' e args)"
  shows "map_sum id (map snd) (run_list s st p i es args) = map_sum id (map snd) (run_list s' st p' i' es args)"
  using assms
proof (induction es arbitrary: i i')
  case Nil
  show ?case by simp
next
  case (Cons e es)
  have hd: "value_of (run s st (p @ [i]) e args) = value_of (run s' st (p' @ [i']) e args)"
    using Cons.prems by simp
  have tl: "map_sum id (map snd) (run_list s st p (Suc i) es args) =
      map_sum id (map snd) (run_list s' st p' (Suc i') es args)"
    by (rule Cons.IH) (rule Cons.prems, simp)
  show ?case
  proof (cases "run s st (p @ [i]) e args")
    case (Inl err)
    with value_of_Inl[OF hd Inl] show ?thesis by simp
  next
    case (Inr out)
    with value_of_Inr[OF hd, of "fst out" "snd out"]
    obtain t' where r': "run s' st (p' @ [i']) e args = Inr (t', snd out)"
      by auto
    from tl Inr r' show ?thesis
      by (cases "run_list s st p (Suc i) es args"; cases "run_list s' st p' (Suc i') es args") auto
  qed
qed

lemma run_value_schedule_free:
  "value_of (run s st p e args) = value_of (run s' st p' e args)"
proof (induction e arbitrary: s p s' p')
  case (Constant h)
  show ?case by (simp add: value_of_def split: option.splits)
next
  case (Variable n name)
  show ?case by (simp add: value_of_def)
next
  case (Compound opr es)
  show ?case
  proof (cases "invoker_of opr = Common")
    case True
    have "map_sum id (map snd) (run_list s st p 0 es args) =
        map_sum id (map snd) (run_list s' st p' 0 es args)"
      by (rule run_list_values) (rule Compound.IH)
    with True show ?thesis by (simp only: value_of_common)
  next
    case lazy: False
    show ?thesis
    proof (cases "length es = 2")
      case False
      show ?thesis by (simp only: lazy_arity[OF lazy False])
    next
      case True
      then obtain e1 e2 where es: "es = [e1, e2]"
        by (cases es; cases "tl es") auto
      have v1: "value_of (run s st (p @ [0]) e1 args) = value_of (run s' st (p' @ [0]) e1 args)"
        and v2: "value_of (run s st (p @ [1]) e2 args) = value_of (run s' st (p' @ [1]) e2 args)"
        using Compound.IH es by simp_all
      from lazy consider "opr = Std_logical_and" | "opr = Std_logical_or"
        by (cases "invoker_of opr") (auto dest: invoker_lazy_and invoker_lazy_or)
      then show ?thesis
      proof cases
        case 1
        with es v1 v2 show ?thesis by (simp only: value_of_lazy_and)
      next
        case 2
        with es v1 v2 show ?thesis by (simp only: value_of_lazy_or)
      qed
    qed
  qed
qed

text \<open>The result of a call does not depend on the order of the nested calls.\<close>

lemma evaluate_schedule_free:
  "value_of (evaluate s st p e args) = value_of (evaluate s' st p' e args)"
proof (cases "result_type e (map type_of args)")
  case None
  then show ?thesis by (simp add: evaluate_def)
next
  case (Some t)
  then show ?thesis by (simp add: evaluate_def run_value_schedule_free [of s st p e args s' p'])
qed

text \<open>
  No call writes the store, and a call reads it only at the variables that the expression
  refers to: two calls with the same arguments return the same outcome as long as those
  variables hold the same values. An expression without references returns the same
  outcome in every store.
\<close>

lemma stored_frame: "(\<And>a. a \<in> refs (Constant h) \<Longrightarrow> st a = st' a) \<Longrightarrow> stored st h = stored st' h"
  by (cases h) simp_all

lemma run_list_frame:
  assumes "\<And>e q. e \<in> set es \<Longrightarrow> run s st q e args = run s st' q e args"
  shows "run_list s st p i es args = run_list s st' p i es args"
  using assms
proof (induction es arbitrary: i)
  case Nil
  show ?case by simp
next
  case (Cons e es)
  have hd: "run s st (p @ [i]) e args = run s st' (p @ [i]) e args"
    by (rule Cons.prems) simp
  have tl: "run_list s st p (Suc i) es args = run_list s st' p (Suc i) es args"
    by (rule Cons.IH) (rule Cons.prems, simp)
  show ?case by (simp add: hd tl cong: sum.case_cong)
qed

lemma run_frame:
  assumes "\<And>a. a \<in> refs e \<Longrightarrow> st a = st' a"
  shows "run s st p e args = run s st' p e args"
  using assms
proof (induction e arbitrary: p)
  case (Constant h)
  from stored_frame[of h st st'] Constant.prems have "stored st h = stored st' h" by blast
  then show ?case by simp
next
  case (Variable n name)
  show ?case by simp
next
  case (Compound opr es)
  have el: "run s st q e args = run s st' q e args" if "e \<in> set es" for e q
    using that Compound.prems by (intro Compound.IH) auto
  show ?case
  proof (cases "invoker_of opr = Common")
    case True
    have "run_list s st p 0 es args = run_list s st' p 0 es args"
      by (rule run_list_frame) (rule el)
    with True show ?thesis by simp
  next
    case lazy: False
    show ?thesis
    proof (cases "length es = 2")
      case False
      show ?thesis by (simp only: lazy_arity[OF lazy False])
    next
      case True
      then obtain e1 e2 where es: "es = [e1, e2]"
        by (cases es; cases "tl es") auto
      have r1: "run s st q e1 args = run s st' q e1 args"
        and r2: "run s st q e2 args = run s st' q e2 args" for q
        using el es by simp_all
      show ?thesis unfolding es
        by (simp add: r1 r2 cong: sum.case_cong option.case_cong bool.case_cong
            invoker.case_cong prod.case_cong)
    qed
  qed
qed

lemma evaluate_frame:
  assumes "\<And>a. a \<in> refs e \<Longrightarrow> st a = st' a"
  shows "evaluate s st p e args = evaluate s st' p e args"
  unfolding evaluate_def by (simp only: run_frame[OF assms])

lemma evaluate_without_refs:
  "refs e = {} \<Longrightarrow> evaluate s st p e args = evaluate s st' p e args"
  by (rule evaluate_frame) simp

text \<open>
  The overload for an rvalue operand copies it, as the documentation of \<^verbatim>\<open>Constant\<close> says
  (\<^verbatim>\<open>Creates a copy of the given value; callers may dispense the original object
  afterwards\<close>): the call returns the same value in every store.
\<close>

lemma rvalue_operand_is_copied:
  "value_of (evaluate s st p (plus_ET (variable 1) (Rvalue (VInt 3))) [VInt 1]) = Inr (VInt 4)"
  by (simp add: evaluate_def value_of_def plus_ET_def variable_def op_defs)

text \<open>
  For an lvalue operand the constant refers to the caller's variable, and once the caller
  has dispensed with the variable the call has nothing to read.
\<close>

lemma dispensed_operand_is_undefined:
  "evaluate s Map.empty p (plus_ET (variable 1) (Lvalue TInt 0)) [VInt 1]
     = Inl UndefinedBehaviour"
  by (simp add: evaluate_def plus_ET_def variable_def op_defs)

text \<open>
  Claim C9 asks that two calls of a built expression with the same arguments return the
  same result. The code breaks this for an expression built from a variable of the
  caller: with \<^verbatim>\<open>int n = 3\<close> at address 0 and \<^verbatim>\<open>e = x + n\<close>, the call \<^verbatim>\<open>e(1)\<close> returns 4;
  after the caller's \<^verbatim>\<open>n = 102\<close>, the same call returns 103.
\<close>

theorem C9_aliased_operand_changes_result:
  "value_of (evaluate left_to_right [0 \<mapsto> VInt 3] []
      (plus_ET (variable 1) (Lvalue TInt 0)) [VInt 1]) = Inr (VInt 4)
   \<and> value_of (evaluate left_to_right ([0 \<mapsto> VInt 3](0 \<mapsto> VInt 102)) []
      (plus_ET (variable 1) (Lvalue TInt 0)) [VInt 1]) = Inr (VInt 103)"
  by (simp add: evaluate_def value_of_def plus_ET_def variable_def op_defs)

end
